theory Spec2Isabelle
  imports Main "HOL-Library.List_Lexorder"
begin

section \<open>Python strings\<close>

text \<open>
  A Python \<open>str\<close> is a sequence of Unicode code points, and \<open>len\<close>, slicing, \<open>strip\<close> and
  the \<open>re\<close> module all work on code points. A string is therefore a list of code points
  (natural numbers); \<open>py\<close> writes an ASCII literal. Strings compare lexicographically by
  code point, which is the order \<open>sorted\<close> uses.
\<close>

type_synonym codepoint = nat
type_synonym pystr = "codepoint list"

definition py :: "string \<Rightarrow> pystr" where
  "py s = map of_char s"

text \<open>
  \<open>str.isspace\<close>, \<open>str.strip()\<close> and the pattern \<open>\s\<close> of a \<open>str\<close> regular expression share
  one table of whitespace code points.
\<close>

definition isspace :: "codepoint \<Rightarrow> bool" where
  "isspace c \<longleftrightarrow>
     (9 \<le> c \<and> c \<le> 13) \<or> (28 \<le> c \<and> c \<le> 32) \<or> c = 133 \<or> c = 160 \<or> c = 5760 \<or>
     (8192 \<le> c \<and> c \<le> 8202) \<or> c = 8232 \<or> c = 8233 \<or> c = 8239 \<or> c = 8287 \<or> c = 12288"

text \<open>
  Alphanumeric code points: the ASCII letters and digits; beyond ASCII the Unicode
  character database decides, which is the parameter \<open>U\<close> here.
\<close>

definition isalnum :: "(codepoint \<Rightarrow> bool) \<Rightarrow> codepoint \<Rightarrow> bool" where
  "isalnum U c \<longleftrightarrow>
     (if c < 128 then (48 \<le> c \<and> c \<le> 57) \<or> (65 \<le> c \<and> c \<le> 90) \<or> (97 \<le> c \<and> c \<le> 122)
      else U c)"

text \<open>The pattern \<open>\w\<close>: an alphanumeric code point or the underscore (code point 95).\<close>

definition re_word :: "(codepoint \<Rightarrow> bool) \<Rightarrow> codepoint \<Rightarrow> bool" where
  "re_word U c \<longleftrightarrow> isalnum U c \<or> c = 95"

text \<open>The hyphen is code point 45.\<close>

definition hyphen :: codepoint where
  "hyphen = 45"

definition strip :: "pystr \<Rightarrow> pystr" where
  "strip s = rev (dropWhile isspace (rev (dropWhile isspace s)))"

text \<open>\<open>s.rstrip(chars)\<close> removes every trailing code point that occurs in \<open>chars\<close>.\<close>

definition rstrip :: "pystr \<Rightarrow> pystr \<Rightarrow> pystr" where
  "rstrip chars s = rev (dropWhile (\<lambda>c. c \<in> set chars) (rev s))"

definition startswith :: "pystr \<Rightarrow> pystr \<Rightarrow> bool" where
  "startswith s p \<longleftrightarrow> take (length p) s = p"

section \<open>The calendar emitter's filename\<close>

text \<open>
  \<open>re.sub(r'[^\w\s-]', '', title)\<close> deletes every code point outside the class, that is, it
  keeps the word characters, the whitespace and the hyphens.
\<close>

definition keeps :: "(codepoint \<Rightarrow> bool) \<Rightarrow> codepoint \<Rightarrow> bool" where
  "keeps U c \<longleftrightarrow> re_word U c \<or> isspace c \<or> c = hyphen"

definition remove_invalid :: "(codepoint \<Rightarrow> bool) \<Rightarrow> pystr \<Rightarrow> pystr" where
  "remove_invalid U s = filter (keeps U) s"

text \<open>
  \<open>re.sub(r'[-\s]+', '-', s)\<close> scans from the left; at a hyphen or whitespace it takes the
  longest run of them and writes one hyphen for it, any other code point is copied.
\<close>

definition separator :: "codepoint \<Rightarrow> bool" where
  "separator c \<longleftrightarrow> c = hyphen \<or> isspace c"

function collapse_runs :: "pystr \<Rightarrow> pystr" where
  "collapse_runs [] = []"
| "collapse_runs (c # cs) =
     (if separator c then hyphen # collapse_runs (dropWhile separator cs)
      else c # collapse_runs cs)"
  by pat_completeness auto
termination
  by (relation "measure length") (auto simp: length_dropWhile_le less_Suc_eq_le)

definition filename_base :: "(codepoint \<Rightarrow> bool) \<Rightarrow> pystr \<Rightarrow> pystr" where
  "filename_base U title = collapse_runs (strip (remove_invalid U title))"

definition ics_filename :: "(codepoint \<Rightarrow> bool) \<Rightarrow> pystr \<Rightarrow> pystr" where
  "ics_filename U title = take 50 (filename_base U title) @ py ''.ics''"

text \<open>
  The table that classifies no code point beyond ASCII as alphanumeric; it instantiates
  \<open>U\<close> in the examples, whose strings are ASCII.
\<close>

definition no_unicode_alnum :: "codepoint \<Rightarrow> bool" where
  "no_unicode_alnum c \<longleftrightarrow> False"

text \<open>What the specification promises of a filename stem: alphanumerics and hyphens only.\<close>

definition alnum_or_hyphen_only :: "(codepoint \<Rightarrow> bool) \<Rightarrow> pystr \<Rightarrow> bool" where
  "alnum_or_hyphen_only U s \<longleftrightarrow> list_all (\<lambda>c. isalnum U c \<or> c = hyphen) s"

text \<open>What the code guarantees: word characters (underscore included) and hyphens only.\<close>

definition word_or_hyphen_only :: "(codepoint \<Rightarrow> bool) \<Rightarrow> pystr \<Rightarrow> bool" where
  "word_or_hyphen_only U s \<longleftrightarrow> list_all (\<lambda>c. re_word U c \<or> c = hyphen) s"

section \<open>Timestamps\<close>

text \<open>
  A Python \<open>datetime\<close>: the civil fields and an optional time zone. A value without zone is
  naive, one with a zone is aware. The zone carries its name and the offset from UTC in
  seconds that was resolved for this value.
\<close>

record tz =
  tzname :: pystr
  utcoffset :: int

record py_datetime =
  year :: int
  month :: int
  day :: int
  hour :: int
  minute :: int
  second :: int
  microsecond :: int
  tzinfo :: "tz option"

text \<open>
  The exceptions of the run. The handler of \<open>scrape_page\<close> names \<open>ValueError\<close> and
  \<open>TypeError\<close> (the parser's \<open>ParserError\<close> is a \<open>ValueError\<close>); \<open>OverflowError\<close> stands for
  the classes it does not name, which the parser's documentation lists as well.
\<close>

datatype py_exception = ValueError | TypeError | OverflowError

text \<open>
  \<open>dateutil.parser.parse\<close> is a library outside the repository; it is a parameter of the
  model: a function from the string to a \<open>datetime\<close> (naive, or aware when the string
  carries an offset) or to the exception it raises.
\<close>

type_synonym parser = "pystr \<Rightarrow> py_exception + py_datetime"

text \<open>
  \<open>pytz.timezone("America/Chicago").localize(dt)\<close>, as the library documents it: a
  \<open>datetime\<close> that already has a zone is refused with \<open>ValueError\<close>; a naive one keeps its
  civil fields and receives the zone, with the standard or daylight offset in force at
  that civil time. The offsets are the zone database's, the parameter \<open>offs\<close>.
\<close>

definition central_tz :: pystr where
  "central_tz = py ''America/Chicago''"

definition localize :: "(py_datetime \<Rightarrow> int) \<Rightarrow> py_datetime \<Rightarrow> py_exception + py_datetime" where
  "localize offs dt =
     (if tzinfo dt \<noteq> None then Inl ValueError
      else Inr (dt\<lparr>tzinfo := Some \<lparr>tzname = central_tz, utcoffset = offs dt\<rparr>\<rparr>))"

text \<open>
  Lines 110 to 114 of \<open>scrape_page\<close>: strip the trailing UTC markers, parse, attach the
  zone. An exception of either step is the result.
\<close>

definition normalize_timestamp :: "parser \<Rightarrow> (py_datetime \<Rightarrow> int) \<Rightarrow> pystr \<Rightarrow> py_exception + py_datetime" where
  "normalize_timestamp parse offs datetime_str =
     (let naive_dt_str = rstrip (py ''Zz'') datetime_str in
      case parse naive_dt_str of
        Inl e \<Rightarrow> Inl e
      | Inr parsed_naive_datetime \<Rightarrow> localize offs parsed_naive_datetime)"

section \<open>Event containers\<close>

text \<open>
  The HTML parser is a library as well. A container is modelled by what the four queries
  of the loop body find in it: the first anchor (its \<open>href\<close> attribute if it has one, the
  text of its first \<open>span.font-bold\<close> if there is one, and its whole text), the first
  \<open>time\<close> element (\<open>Some None\<close> when it has no \<open>datetime\<close> attribute) and the text of the
  first \<open>span.location\<close>.
\<close>

record anchor =
  href :: "pystr option"
  title_span :: "pystr option"
  anchor_text :: pystr

record container =
  link_element :: "anchor option"
  time_tag :: "pystr option option"
  location_element :: "pystr option"

record event =
  title :: pystr
  link :: pystr
  datetime :: py_datetime
  location :: pystr

definition no_title :: pystr where
  "no_title = py ''No Title Found''"

definition no_location :: pystr where
  "no_location = py ''No Location Found''"

definition site_origin :: pystr where
  "site_origin = py ''https://murphy.tulane.edu''"

definition extract_link :: "container \<Rightarrow> pystr" where
  "extract_link item =
     (case link_element item of
        None \<Rightarrow> []
      | Some a \<Rightarrow>
          (let h = (case href a of None \<Rightarrow> [] | Some v \<Rightarrow> v) in
           if startswith h (py ''/'') then site_origin @ h else h))"

definition extract_title :: "container \<Rightarrow> pystr" where
  "extract_title item =
     (case link_element item of
        None \<Rightarrow> no_title
      | Some a \<Rightarrow>
          (case title_span a of
             Some t \<Rightarrow> strip t
           | None \<Rightarrow> strip (anchor_text a)))"

definition extract_datetime_str :: "container \<Rightarrow> pystr" where
  "extract_datetime_str item =
     (case time_tag item of
        Some (Some v) \<Rightarrow> v
      | _ \<Rightarrow> [])"

definition extract_location :: "container \<Rightarrow> pystr" where
  "extract_location item =
     (case location_element item of
        None \<Rightarrow> no_location
      | Some t \<Rightarrow> strip t)"

text \<open>
  One pass of the loop body: the event is appended, or the container is skipped (no
  timestamp, or a \<open>ValueError\<close> or \<open>TypeError\<close> in the \<open>try\<close> block), or an exception the
  handler does not name leaves the function.
\<close>

datatype outcome = Appended event | Skipped | Raised py_exception

definition process_container :: "parser \<Rightarrow> (py_datetime \<Rightarrow> int) \<Rightarrow> container \<Rightarrow> outcome" where
  "process_container parse offs item =
     (let datetime_str = extract_datetime_str item in
      if datetime_str \<noteq> [] then
        (case normalize_timestamp parse offs datetime_str of
           Inr aware_datetime \<Rightarrow>
             Appended \<lparr>title = extract_title item, link = extract_link item,
                       datetime = aware_datetime, location = extract_location item\<rparr>
         | Inl ValueError \<Rightarrow> Skipped
         | Inl TypeError \<Rightarrow> Skipped
         | Inl e \<Rightarrow> Raised e)
      else Skipped)"

fun scrape_loop ::
  "parser \<Rightarrow> (py_datetime \<Rightarrow> int) \<Rightarrow> container list \<Rightarrow> event list \<Rightarrow> py_exception + event list"
where
  "scrape_loop parse offs [] events_on_page = Inr events_on_page"
| "scrape_loop parse offs (item # items) events_on_page =
     (case process_container parse offs item of
        Appended e \<Rightarrow> scrape_loop parse offs items (events_on_page @ [e])
      | Skipped \<Rightarrow> scrape_loop parse offs items events_on_page
      | Raised x \<Rightarrow> Inl x)"

text \<open>
  A fetched page, as far as the program reads it: the containers that
  \<open>find_all('div', class_='views-field-title')\<close> returns, in document order, and the
  \<open>href\<close> attributes (\<open>None\<close> when absent) of the anchors that \<open>select('li.pager__item a')\<close>
  returns.
\<close>

record document =
  event_containers :: "container list"
  pager_items :: "pystr option list"

text \<open>Lines 54 to 130 of \<open>scrape_page\<close>: what it does with a page it has fetched.\<close>

definition scrape_document ::
  "parser \<Rightarrow> (py_datetime \<Rightarrow> int) \<Rightarrow> document \<Rightarrow> py_exception + event list"
where
  "scrape_document parse offs soup =
     (if event_containers soup = [] then Inr []
      else scrape_loop parse offs (event_containers soup) [])"

section \<open>Fetching\<close>

text \<open>
  \<open>requests.get\<close> followed by \<open>raise_for_status\<close> either raises a \<open>RequestException\<close> or
  delivers a page. The network is a parameter: it answers the \<open>n\<close>-th request of the run
  (counted from 0) for a URL, so two requests for one URL may be answered differently.
  The state of a run is the list of the URLs requested so far.
\<close>

datatype response = RequestException | Response document

type_synonym network = "nat \<Rightarrow> pystr \<Rightarrow> response"

definition requests_get :: "network \<Rightarrow> pystr list \<Rightarrow> pystr \<Rightarrow> response \<times> pystr list" where
  "requests_get net log url = (net (length log) url, log @ [url])"

definition scrape_page ::
  "parser \<Rightarrow> (py_datetime \<Rightarrow> int) \<Rightarrow> network \<Rightarrow> pystr list \<Rightarrow> pystr
     \<Rightarrow> (py_exception + event list) \<times> pystr list"
where
  "scrape_page parse offs net log url =
     (case requests_get net log url of
        (RequestException, log') \<Rightarrow> (Inr [], log')
      | (Response soup, log') \<Rightarrow> (scrape_document parse offs soup, log'))"

section \<open>The calendar file of an event\<close>

text \<open>
  \<open>generate_ics_file\<close> writes one file into the directory \<open>events\<close>: its name and the
  fields of the single calendar event in it. The description is set only for a
  non-empty link. The file system is not part of the model: a write that fails is
  reported and the run goes on, so the list of a run's files is the list of its writes.
\<close>

record ics_file =
  filename :: pystr
  ics_name :: pystr
  ics_begin :: py_datetime
  ics_location :: pystr
  ics_description :: "pystr option"

definition generate_ics_file :: "(codepoint \<Rightarrow> bool) \<Rightarrow> event \<Rightarrow> ics_file" where
  "generate_ics_file U event_details =
     \<lparr>filename = ics_filename U (title event_details),
      ics_name = title event_details,
      ics_begin = datetime event_details,
      ics_location = location event_details,
      ics_description =
        (if link event_details \<noteq> [] then Some (py ''For more details, visit: '' @ link event_details)
         else None)\<rparr>"

section \<open>The orchestrator\<close>

definition base_url :: pystr where
  "base_url = py ''https://murphy.tulane.edu/events/upcoming-events''"

text \<open>The loop over the pager anchors, adding to the set \<open>page_links\<close>.\<close>

fun collect_page_links :: "pystr option list \<Rightarrow> pystr set \<Rightarrow> pystr set" where
  "collect_page_links [] page_links = page_links"
| "collect_page_links (h # hs) page_links =
     collect_page_links hs
       (case h of
          None \<Rightarrow> page_links
        | Some v \<Rightarrow>
            if v \<noteq> [] \<and> startswith v (py ''?page='') then insert (base_url @ v) page_links
            else page_links)"

text \<open>The loop over the sorted page URLs, extending \<open>all_events\<close>.\<close>

fun scrape_rest ::
  "parser \<Rightarrow> (py_datetime \<Rightarrow> int) \<Rightarrow> network \<Rightarrow> pystr list \<Rightarrow> event list \<Rightarrow> pystr list
     \<Rightarrow> (py_exception + event list) \<times> pystr list"
where
  "scrape_rest parse offs net [] all_events log = (Inr all_events, log)"
| "scrape_rest parse offs net (page_url # urls) all_events log =
     (case scrape_page parse offs net log page_url of
        (Inl x, log') \<Rightarrow> (Inl x, log')
      | (Inr evs, log') \<Rightarrow> scrape_rest parse offs net urls (all_events @ evs) log')"

text \<open>
  The outcome of a run: the URLs requested, in order; the calendar files written, in
  order; the exception that ended the run, if one did.
\<close>

record run =
  requested :: "pystr list"
  written :: "ics_file list"
  uncaught :: "py_exception option"

definition main ::
  "(codepoint \<Rightarrow> bool) \<Rightarrow> parser \<Rightarrow> (py_datetime \<Rightarrow> int) \<Rightarrow> network \<Rightarrow> run"
where
  "main U parse offs net =
     (case requests_get net [] base_url of
        (RequestException, log0) \<Rightarrow> \<lparr>requested = log0, written = [], uncaught = None\<rparr>
      | (Response soup, log0) \<Rightarrow>
          (case scrape_page parse offs net log0 base_url of
             (Inl x, log1) \<Rightarrow> \<lparr>requested = log1, written = [], uncaught = Some x\<rparr>
           | (Inr first_events, log1) \<Rightarrow>
               (let page_links = collect_page_links (pager_items soup) {} in
                case scrape_rest parse offs net (sorted_list_of_set page_links) first_events log1 of
                  (Inl x, log2) \<Rightarrow> \<lparr>requested = log2, written = [], uncaught = Some x\<rparr>
                | (Inr all_events, log2) \<Rightarrow>
                    \<lparr>requested = log2, written = map (generate_ics_file U) all_events,
                     uncaught = None\<rparr>)))"

section \<open>Vocabulary of the properties\<close>

text \<open>
  A container has no timestamp when it has no \<open>time\<close> element, when that element has no
  \<open>datetime\<close> attribute, or when the attribute is the empty string.
\<close>

definition timestamp_missing :: "container \<Rightarrow> bool" where
  "timestamp_missing item \<longleftrightarrow>
     (case time_tag item of
        None \<Rightarrow> True
      | Some None \<Rightarrow> True
      | Some (Some v) \<Rightarrow> v = [])"

text \<open>
  The parser refuses the timestamp with an exception that the handler names: on the
  stripped string it raises \<open>ValueError\<close> (its \<open>ParserError\<close>) or \<open>TypeError\<close>. This is one
  way for a string not to be parsed, not the only one.
\<close>

definition timestamp_refused :: "parser \<Rightarrow> container \<Rightarrow> bool" where
  "timestamp_refused parse item \<longleftrightarrow>
     (case time_tag item of
        Some (Some v) \<Rightarrow>
          v \<noteq> [] \<and> (parse (rstrip (py ''Zz'') v) = Inl ValueError \<or>
                    parse (rstrip (py ''Zz'') v) = Inl TypeError)
      | _ \<Rightarrow> False)"

text \<open>
  A timestamp is aware and in the configured zone when it carries the zone
  \<open>America/Chicago\<close> with the offset the zone database gives for its civil fields.
\<close>

definition in_central_tz :: "(py_datetime \<Rightarrow> int) \<Rightarrow> py_datetime \<Rightarrow> bool" where
  "in_central_tz offs dt \<longleftrightarrow>
     (case tzinfo dt of
        None \<Rightarrow> False
      | Some z \<Rightarrow> tzname z = central_tz \<and> utcoffset z = offs (dt\<lparr>tzinfo := None\<rparr>))"

text \<open>
  A run has met a fetch failure on the base page when one of its requests was for the
  base URL and the network answered that request with a \<open>RequestException\<close>.
\<close>

definition base_fetch_failed :: "network \<Rightarrow> run \<Rightarrow> bool" where
  "base_fetch_failed net r \<longleftrightarrow>
     list_ex (\<lambda>i. requested r ! i = base_url \<and> net i base_url = RequestException)
       [0..<length (requested r)]"

section \<open>Sample data\<close>

text \<open>
  The examples instantiate the library parameters: a parser that knows the timestamp of
  the specification's scenario, without and with an offset, and refuses every other
  string with \<open>ValueError\<close>; and the offsets of America/Chicago in 2025 by calendar day
  (daylight time, five hours behind UTC, on the days from March 9 to November 1; the two
  days of change are not split by the hour).
\<close>

definition march_10 :: py_datetime where
  "march_10 = \<lparr>year = 2025, month = 3, day = 10, hour = 14, minute = 30, second = 0,
                microsecond = 0, tzinfo = None\<rparr>"

definition utc :: tz where
  "utc = \<lparr>tzname = py ''UTC'', utcoffset = 0\<rparr>"

definition sample_parse :: parser where
  "sample_parse s =
     (if s = py ''2025-03-10T14:30:00'' then Inr march_10
      else if s = py ''2025-03-10T14:30:00+00:00'' then Inr (march_10\<lparr>tzinfo := Some utc\<rparr>)
      else Inl ValueError)"

definition central_2025 :: "py_datetime \<Rightarrow> int" where
  "central_2025 dt =
     (if (month dt = 3 \<and> 9 \<le> day dt) \<or> (3 < month dt \<and> month dt < 11) \<or>
         (month dt = 11 \<and> day dt < 2)
      then - 18000 else - 21600)"

definition jazz_anchor :: anchor where
  "jazz_anchor = \<lparr>href = Some (py ''/events/foo''), title_span = Some (py '' Jazz Night ''),
                  anchor_text = py '' Jazz Night  March 10 ''\<rparr>"

definition jazz_item :: container where
  "jazz_item = \<lparr>link_element = Some jazz_anchor,
                time_tag = Some (Some (py ''2025-03-10T14:30:00Z'')),
                location_element = Some (py '' Murphy Hall '')\<rparr>"

definition talk_anchor :: anchor where
  "talk_anchor = \<lparr>href = Some (py ''https://example.org/talk''), title_span = None,
                  anchor_text = py '' Public Talk ''\<rparr>"

definition talk_item :: container where
  "talk_item = \<lparr>link_element = Some talk_anchor,
                time_tag = Some (Some (py ''2025-03-10T14:30:00'')),
                location_element = None\<rparr>"

definition bare_item :: container where
  "bare_item = \<lparr>link_element = None,
                time_tag = Some (Some (py ''2025-03-10T14:30:00Z'')),
                location_element = None\<rparr>"

definition undated_item :: container where
  "undated_item = \<lparr>link_element = Some jazz_anchor, time_tag = None, location_element = None\<rparr>"

definition garbled_item :: container where
  "garbled_item = \<lparr>link_element = Some talk_anchor, time_tag = Some (Some (py ''soon'')),
                   location_element = None\<rparr>"

definition march_10_central :: py_datetime where
  "march_10_central = march_10\<lparr>tzinfo := Some \<lparr>tzname = central_tz, utcoffset = - 18000\<rparr>\<rparr>"

definition jazz_event :: event where
  "jazz_event = \<lparr>title = py ''Jazz Night'', link = py ''https://murphy.tulane.edu/events/foo'',
                 datetime = march_10_central, location = py ''Murphy Hall''\<rparr>"

definition talk_event :: event where
  "talk_event = \<lparr>title = py ''Public Talk'', link = py ''https://example.org/talk'',
                 datetime = march_10_central, location = py ''No Location Found''\<rparr>"

definition bare_event :: event where
  "bare_event = \<lparr>title = py ''No Title Found'', link = [],
                 datetime = march_10_central, location = py ''No Location Found''\<rparr>"

text \<open>
  A timestamp of twenty nines: the parser reads it as a year, and building the date
  raises \<open>OverflowError\<close> (the year exceeds a C \<open>long\<close>), which is no \<open>ValueError\<close>. The
  parser \<open>overflowing_parse\<close> adds this string to \<open>sample_parse\<close>; the page holds a container
  with it between two well-formed ones.
\<close>

definition huge_timestamp :: pystr where
  "huge_timestamp = py ''99999999999999999999''"

definition overflowing_parse :: parser where
  "overflowing_parse s = (if s = huge_timestamp then Inl OverflowError else sample_parse s)"

definition huge_item :: container where
  "huge_item = \<lparr>link_element = Some talk_anchor, time_tag = Some (Some huge_timestamp),
                location_element = None\<rparr>"

definition huge_page :: document where
  "huge_page = \<lparr>event_containers = [jazz_item, huge_item, talk_item], pager_items = []\<rparr>"

definition huge_net :: network where
  "huge_net n url = Response huge_page"

definition empty_page :: document where
  "empty_page = \<lparr>event_containers = [], pager_items = []\<rparr>"

text \<open>
  A first page with one event and pager anchors (one of them twice, one without \<open>href\<close>,
  one that is no page link), a later page with another event, and three networks: one
  that answers nothing, one on which the page \<open>?page=1\<close> fails, and one that delivers the
  base page to the first request only.
\<close>

definition first_page :: document where
  "first_page = \<lparr>event_containers = [jazz_item],
                 pager_items = [Some (py ''?page=2''), Some (py ''?page=1''), None,
                                Some (py ''/about''), Some (py ''?page=2'')]\<rparr>"

definition later_page :: document where
  "later_page = \<lparr>event_containers = [talk_item], pager_items = []\<rparr>"

definition offline :: network where
  "offline n url = RequestException"

definition page_1_down :: network where
  "page_1_down n url =
     (if url = base_url then Response first_page
      else if url = base_url @ py ''?page=1'' then RequestException
      else Response later_page)"

definition base_down_at_second :: network where
  "base_down_at_second n url =
     (if url = base_url then (if n = 0 then Response first_page else RequestException)
      else Response later_page)"

text \<open>The first two requests of a run are for the base URL.\<close>

definition base_fetched_twice :: "run \<Rightarrow> bool" where
  "base_fetched_twice r \<longleftrightarrow> take 2 (requested r) = [base_url, base_url]"

section \<open>Properties of the filename\<close>

lemma set_collapse_runs:
  "set (collapse_runs s) \<subseteq> {c \<in> set s. \<not> separator c} \<union> {hyphen}"
proof (induction s rule: collapse_runs.induct)
  case 1
  show ?case by simp
next
  case (2 c cs)
  show ?case
  proof (cases "separator c")
    case True
    have "set (dropWhile separator cs) \<subseteq> set cs"
      by (rule set_dropWhileD[THEN subsetI])
    with 2(1)[OF True] True show ?thesis by auto
  next
    case False
    with 2(2)[OF False] show ?thesis by auto
  qed
qed

lemma set_strip: "set (strip s) \<subseteq> set s"
proof
  fix c assume "c \<in> set (strip s)"
  then have "c \<in> set (dropWhile isspace (rev (dropWhile isspace s)))"
    by (simp add: strip_def)
  then have "c \<in> set (dropWhile isspace s)"
    using set_dropWhileD by fastforce
  then show "c \<in> set s" by (rule set_dropWhileD)
qed

lemma filename_base_chars:
  assumes "c \<in> set (filename_base U t)"
  shows "re_word U c \<or> c = hyphen"
proof -
  from assms set_collapse_runs
  have "c = hyphen \<or> (c \<in> set (strip (remove_invalid U t)) \<and> \<not> separator c)"
    unfolding filename_base_def by blast
  then show ?thesis
  proof
    assume "c = hyphen" then show ?thesis by simp
  next
    assume h: "c \<in> set (strip (remove_invalid U t)) \<and> \<not> separator c"
    then have "c \<in> set (remove_invalid U t)" using set_strip by blast
    then have "keeps U c" by (simp add: remove_invalid_def)
    with h show ?thesis by (auto simp: keeps_def separator_def)
  qed
qed

lemma filename_stem_word_or_hyphen:
  "word_or_hyphen_only U (take 50 (filename_base U t))"
  unfolding word_or_hyphen_only_def list_all_iff
  using filename_base_chars by (blast dest: in_set_takeD)

lemmas filename_defs =
  filename_base_def remove_invalid_def keeps_def re_word_def isalnum_def isspace_def
  hyphen_def separator_def strip_def py_def no_unicode_alnum_def ics_filename_def

text \<open>
  C1, as the specification states it, asks for a stem of alphanumerics and hyphens only.
  The class \<open>\w\<close> contains the underscore, so the title \<open>a_b\<close> keeps it: the stem of its
  filename is \<open>a_b\<close>.
\<close>

theorem ics_filename_underscore_counterexample:
  "\<not> alnum_or_hyphen_only no_unicode_alnum
        (take 50 (filename_base no_unicode_alnum (py ''a_b'')))"
  by (simp add: alnum_or_hyphen_only_def filename_defs)

text \<open>
  C1, amended: for every title the filename is a stem followed by \<open>.ics\<close>; the stem holds
  only word characters (alphanumerics and the underscore) and hyphens; the filename is
  at most 50 code points longer than the extension; and it is a function of the title
  alone, so equal titles give equal filenames.
\<close>

theorem ics_filename_safe:
  "ics_filename U t = take 50 (filename_base U t) @ py ''.ics'' \<and>
   word_or_hyphen_only U (take 50 (filename_base U t)) \<and>
   length (ics_filename U t) \<le> 50 + length (py ''.ics'') \<and>
   (t' = t \<longrightarrow> ics_filename U t' = ics_filename U t)"
  using filename_stem_word_or_hyphen [of U t]
  by (simp add: ics_filename_def py_def)

theorem ics_filename_safe_witness:
  "ics_filename no_unicode_alnum (py ''Jazz  Night: 2025'') = py ''Jazz-Night-2025.ics'' \<and>
   word_or_hyphen_only no_unicode_alnum (py ''Jazz-Night-2025'') \<and>
   length (py ''Jazz-Night-2025.ics'') \<le> 50 + length (py ''.ics'')"
  using ics_filename_safe [of no_unicode_alnum "py ''Jazz  Night: 2025''" "py ''Jazz  Night: 2025''"]
  by (simp add: word_or_hyphen_only_def filename_defs)

section \<open>Properties of the timestamp\<close>

lemma rstrip_snoc: "m \<in> set chars \<Longrightarrow> rstrip chars (s @ [m]) = rstrip chars s"
  by (simp add: rstrip_def)

lemmas sample_defs =
  py_def rstrip_def strip_def isspace_def startswith_def sample_parse_def march_10_def utc_def
  central_2025_def central_tz_def normalize_timestamp_def localize_def
  jazz_anchor_def jazz_item_def talk_anchor_def talk_item_def bare_item_def undated_item_def
  garbled_item_def march_10_central_def jazz_event_def talk_event_def bare_event_def
  extract_title_def extract_link_def extract_location_def extract_datetime_str_def
  process_container_def site_origin_def no_title_def no_location_def

text \<open>
  C2: for a raw timestamp that ends in the UTC marker \<open>Z\<close> or \<open>z\<close>, the normalization gives
  what it gives for the string without the marker: the marker is stripped, the rest is
  parsed, and a naive result receives the zone America/Chicago with the offset the zone
  database resolves for it (a result that already has a zone is refused). The example of
  the specification is the witness: \<open>2025-03-10T14:30:00Z\<close> becomes 14:30 on 2025-03-10
  in America/Chicago, five hours behind UTC.
\<close>

theorem normalize_ignores_utc_marker:
  assumes "m = of_char CHR ''Z'' \<or> m = of_char CHR ''z''"
  shows "normalize_timestamp parse offs (s @ [m]) = normalize_timestamp parse offs s \<and>
         normalize_timestamp parse offs (s @ [m]) =
           (case parse (rstrip (py ''Zz'') s) of
              Inl e \<Rightarrow> Inl e
            | Inr d \<Rightarrow>
                if tzinfo d \<noteq> None then Inl ValueError
                else Inr (d\<lparr>tzinfo := Some \<lparr>tzname = central_tz, utcoffset = offs d\<rparr>\<rparr>))"
proof -
  from assms have "m \<in> set (py ''Zz'')" by (auto simp: py_def)
  then have "rstrip (py ''Zz'') (s @ [m]) = rstrip (py ''Zz'') s" by (rule rstrip_snoc)
  then show ?thesis by (simp add: normalize_timestamp_def localize_def split: sum.splits)
qed

theorem normalize_ignores_utc_marker_witness:
  "py ''2025-03-10T14:30:00Z'' = py ''2025-03-10T14:30:00'' @ [of_char CHR ''Z''] \<and>
   normalize_timestamp sample_parse central_2025 (py ''2025-03-10T14:30:00Z'') =
     normalize_timestamp sample_parse central_2025 (py ''2025-03-10T14:30:00'') \<and>
   normalize_timestamp sample_parse central_2025 (py ''2025-03-10T14:30:00Z'') =
     Inr \<lparr>year = 2025, month = 3, day = 10, hour = 14, minute = 30, second = 0,
          microsecond = 0,
          tzinfo = Some \<lparr>tzname = py ''America/Chicago'', utcoffset = - 18000\<rparr>\<rparr>"
  using normalize_ignores_utc_marker
    [of "of_char CHR ''Z''" sample_parse central_2025 "py ''2025-03-10T14:30:00''"]
  by (simp add: sample_defs)

section \<open>Properties of the page parser\<close>

lemma process_container_skipped:
  assumes "timestamp_missing item \<or> timestamp_refused parse item"
  shows "process_container parse offs item = Skipped"
  using assms
  by (auto simp: timestamp_missing_def timestamp_refused_def process_container_def
      extract_datetime_str_def normalize_timestamp_def Let_def split: option.splits)

lemma scrape_loop_skip:
  "process_container parse offs item = Skipped \<Longrightarrow>
   scrape_loop parse offs (before @ item # after) acc = scrape_loop parse offs (before @ after) acc"
  by (induction before arbitrary: acc) (auto split: outcome.splits)

lemma sample_jazz: "process_container sample_parse central_2025 jazz_item = Appended jazz_event"
  by (simp add: sample_defs)

lemma sample_talk: "process_container sample_parse central_2025 talk_item = Appended talk_event"
  by (simp add: sample_defs)

lemma sample_bare: "process_container sample_parse central_2025 bare_item = Appended bare_event"
  by (simp add: sample_defs)

text \<open>
  An exception that the handler does not name is not a parse failure of the container
  alone: it leaves the loop, and the page with it.
\<close>

lemma process_container_raised:
  assumes "time_tag item = Some (Some v)" and "v \<noteq> []"
    and "parse (rstrip (py ''Zz'') v) = Inl OverflowError"
  shows "process_container parse offs item = Raised OverflowError"
  using assms
  by (simp add: process_container_def extract_datetime_str_def normalize_timestamp_def)

text \<open>
  What the handler covers: a container whose timestamp is missing, or whose timestamp
  string the parser refuses with \<open>ValueError\<close> or \<open>TypeError\<close>, yields no event, and the
  page is parsed as if the container were not there.
\<close>

lemma refused_container_dropped:
  assumes "timestamp_missing item \<or> timestamp_refused parse item"
  shows "process_container parse offs item = Skipped \<and>
         scrape_loop parse offs (before @ item # after) acc =
           scrape_loop parse offs (before @ after) acc \<and>
         scrape_document parse offs \<lparr>event_containers = before @ item # after, pager_items = p\<rparr> =
           scrape_document parse offs \<lparr>event_containers = before @ after, pager_items = p\<rparr>"
proof -
  have skipped: "process_container parse offs item = Skipped"
    using assms by (rule process_container_skipped)
  have loop: "scrape_loop parse offs (before @ item # after) acc =
      scrape_loop parse offs (before @ after) acc" for acc
    using skipped by (rule scrape_loop_skip)
  have "scrape_loop parse offs (before @ after) [] = Inr []" if "before @ after = []"
    using that by simp
  with loop [of "[]"] skipped loop show ?thesis
    by (simp add: scrape_document_def)
qed

lemma refused_container_dropped_examples:
  "timestamp_missing undated_item \<and> timestamp_refused sample_parse garbled_item \<and>
   scrape_document sample_parse central_2025
     \<lparr>event_containers = [jazz_item, undated_item, talk_item], pager_items = []\<rparr> =
       Inr [jazz_event, talk_event] \<and>
   scrape_document sample_parse central_2025
     \<lparr>event_containers = [jazz_item, garbled_item, talk_item], pager_items = []\<rparr> =
       Inr [jazz_event, talk_event]"
proof -
  have m: "timestamp_missing undated_item"
    by (simp add: timestamp_missing_def undated_item_def)
  have u: "timestamp_refused sample_parse garbled_item"
    by (simp add: timestamp_refused_def sample_defs)
  have two: "scrape_document sample_parse central_2025
     \<lparr>event_containers = [jazz_item] @ [talk_item], pager_items = []\<rparr> =
       Inr [jazz_event, talk_event]"
    by (simp add: scrape_document_def sample_jazz sample_talk)
  from m have a: "timestamp_missing undated_item \<or> timestamp_refused sample_parse undated_item" ..
  from u have b: "timestamp_missing garbled_item \<or> timestamp_refused sample_parse garbled_item" ..
  show ?thesis
    using m u two
      refused_container_dropped [OF a, of central_2025 "[jazz_item]" "[talk_item]" "[]" "[]"]
      refused_container_dropped [OF b, of central_2025 "[jazz_item]" "[talk_item]" "[]" "[]"]
    by simp
qed

lemma overflowing_jazz:
  "process_container overflowing_parse central_2025 jazz_item = Appended jazz_event"
  by (simp add: overflowing_parse_def huge_timestamp_def sample_defs)

lemma overflowing_talk:
  "process_container overflowing_parse central_2025 talk_item = Appended talk_event"
  by (simp add: overflowing_parse_def huge_timestamp_def sample_defs)

lemma overflowing_huge:
  "process_container overflowing_parse central_2025 huge_item = Raised OverflowError"
  by (simp add: overflowing_parse_def huge_timestamp_def huge_item_def process_container_def
      extract_datetime_str_def normalize_timestamp_def rstrip_def py_def)

text \<open>
  C3 asks that a container whose timestamp string cannot be parsed is dropped and that
  the rest of the page is parsed. The handler of \<open>scrape_page\<close> names \<open>ValueError\<close> and
  \<open>TypeError\<close> only. On the timestamp \<open>99999999999999999999\<close> the parser raises
  \<open>OverflowError\<close>: the container is not dropped, the exception leaves the loop, the
  events of the two well-formed containers around it are lost, and the run that fetched
  the page ends with the exception after its second request, with no file written.
  Without that container the same page gives two events.
\<close>

theorem overflowing_timestamp_aborts_run:
  "\<not> timestamp_missing huge_item \<and>
   overflowing_parse (rstrip (py ''Zz'') huge_timestamp) = Inl OverflowError \<and>
   process_container overflowing_parse central_2025 huge_item = Raised OverflowError \<and>
   scrape_document overflowing_parse central_2025
     \<lparr>event_containers = [jazz_item, talk_item], pager_items = []\<rparr> =
       Inr [jazz_event, talk_event] \<and>
   scrape_document overflowing_parse central_2025
     \<lparr>event_containers = [jazz_item, huge_item, talk_item], pager_items = []\<rparr> =
       Inl OverflowError \<and>
   main no_unicode_alnum overflowing_parse central_2025 huge_net =
     \<lparr>requested = [base_url, base_url], written = [], uncaught = Some OverflowError\<rparr>"
proof -
  have m: "\<not> timestamp_missing huge_item"
    by (simp add: timestamp_missing_def huge_item_def huge_timestamp_def py_def)
  have p: "overflowing_parse (rstrip (py ''Zz'') huge_timestamp) = Inl OverflowError"
    by (simp add: overflowing_parse_def huge_timestamp_def rstrip_def py_def)
  have two: "scrape_document overflowing_parse central_2025
     \<lparr>event_containers = [jazz_item, talk_item], pager_items = []\<rparr> =
       Inr [jazz_event, talk_event]"
    by (simp add: scrape_document_def overflowing_jazz overflowing_talk)
  have three: "scrape_document overflowing_parse central_2025
     \<lparr>event_containers = [jazz_item, huge_item, talk_item], pager_items = []\<rparr> =
       Inl OverflowError"
    by (simp add: scrape_document_def overflowing_jazz overflowing_huge)
  have r: "main no_unicode_alnum overflowing_parse central_2025 huge_net =
     \<lparr>requested = [base_url, base_url], written = [], uncaught = Some OverflowError\<rparr>"
    using three by (simp add: main_def scrape_page_def requests_get_def huge_net_def huge_page_def)
  show ?thesis by (intro conjI m p overflowing_huge two three r)
qed

lemma naive_update: "tzinfo d = None \<Longrightarrow> d\<lparr>tzinfo := None\<rparr> = d"
  by (cases d) simp

lemma process_container_appended:
  assumes "process_container parse offs item = Appended e"
  shows "title e = extract_title item \<and> link e = extract_link item \<and>
         location e = extract_location item \<and> in_central_tz offs (datetime e)"
proof -
  let ?s = "extract_datetime_str item"
  from assms obtain dt where n: "normalize_timestamp parse offs ?s = Inr dt"
    and e: "e = \<lparr>title = extract_title item, link = extract_link item,
                  datetime = dt, location = extract_location item\<rparr>"
    by (auto simp: process_container_def Let_def split: if_splits sum.splits py_exception.splits)
  from n have "in_central_tz offs dt"
    by (auto simp: normalize_timestamp_def localize_def in_central_tz_def Let_def naive_update
        split: sum.splits if_splits)
  with e show ?thesis by simp
qed

lemma scrape_loop_sources:
  "scrape_loop parse offs items acc = Inr evs \<Longrightarrow> e \<in> set evs \<Longrightarrow>
   e \<in> set acc \<or> (\<exists>item \<in> set items. process_container parse offs item = Appended e)"
proof (induction items arbitrary: acc)
  case Nil
  then show ?case by simp
next
  case (Cons item items)
  show ?case
  proof (cases "process_container parse offs item")
    case (Appended x)
    with Cons.prems have "scrape_loop parse offs items (acc @ [x]) = Inr evs" by simp
    from Cons.IH [OF this Cons.prems(2)] Appended show ?thesis by auto
  next
    case Skipped
    with Cons.prems have "scrape_loop parse offs items acc = Inr evs" by simp
    from Cons.IH [OF this Cons.prems(2)] show ?thesis by auto
  next
    case (Raised x)
    with Cons.prems show ?thesis by simp
  qed
qed

text \<open>
  C4: every event that the parser returns for a page carries a timestamp that is aware
  and in America/Chicago, and comes from a container of the page whose anchor and
  location span decide its strings: the title is the placeholder (no anchor), the
  stripped anchor text (no title span) or the stripped span text; the location is the
  placeholder or the stripped text of the location span. The strings are never null: a
  field of type \<open>pystr\<close> always holds a string.
\<close>

theorem materialized_record_invariant:
  assumes "scrape_document parse offs soup = Inr evs" and "e \<in> set evs"
  shows "in_central_tz offs (datetime e) \<and>
         (\<exists>item \<in> set (event_containers soup).
            (link_element item = None \<and> title e = no_title \<or>
             (\<exists>a. link_element item = Some a \<and>
                (title_span a = None \<and> title e = strip (anchor_text a) \<or>
                 (\<exists>t. title_span a = Some t \<and> title e = strip t)))) \<and>
            (location_element item = None \<and> location e = no_location \<or>
             (\<exists>t. location_element item = Some t \<and> location e = strip t)))"
proof -
  from assms have "scrape_loop parse offs (event_containers soup) [] = Inr evs"
    by (auto simp: scrape_document_def split: if_splits)
  from scrape_loop_sources [OF this assms(2)]
  obtain item where i: "item \<in> set (event_containers soup)"
    and a: "process_container parse offs item = Appended e" by auto
  note f = process_container_appended [OF a]
  have t: "link_element item = None \<and> title e = no_title \<or>
             (\<exists>a. link_element item = Some a \<and>
                (title_span a = None \<and> title e = strip (anchor_text a) \<or>
                 (\<exists>t. title_span a = Some t \<and> title e = strip t)))"
    using f by (auto simp: extract_title_def split: option.splits)
  have l: "location_element item = None \<and> location e = no_location \<or>
             (\<exists>t. location_element item = Some t \<and> location e = strip t)"
    using f by (auto simp: extract_location_def split: option.splits)
  from f i t l show ?thesis by blast
qed

lemma sample_page:
  "scrape_document sample_parse central_2025
     \<lparr>event_containers = [jazz_item, bare_item], pager_items = []\<rparr> = Inr [jazz_event, bare_event]"
  by (simp add: scrape_document_def sample_jazz sample_bare)

theorem materialized_record_invariant_witness:
  "scrape_document sample_parse central_2025
     \<lparr>event_containers = [jazz_item, bare_item], pager_items = []\<rparr> = Inr [jazz_event, bare_event] \<and>
   in_central_tz central_2025 (datetime bare_event) \<and>
   title bare_event = no_title \<and> location bare_event = no_location \<and>
   in_central_tz central_2025 (datetime jazz_event) \<and>
   title jazz_event = py ''Jazz Night'' \<and> location jazz_event = py ''Murphy Hall''"
proof -
  have b: "bare_event \<in> set [jazz_event, bare_event]" by simp
  have j: "jazz_event \<in> set [jazz_event, bare_event]" by simp
  show ?thesis
    using sample_page
      materialized_record_invariant [OF sample_page b]
      materialized_record_invariant [OF sample_page j]
    by (simp add: bare_event_def jazz_event_def no_title_def no_location_def)
qed

text \<open>
  C6: on a page in which the selector matches no container, the parser returns the empty
  list and raises nothing, and so does \<open>scrape_page\<close> when that page is what it fetches.
\<close>

theorem no_containers_empty_list:
  assumes "event_containers soup = []"
  shows "scrape_document parse offs soup = Inr [] \<and>
         (net (length log) url = Response soup \<longrightarrow>
            scrape_page parse offs net log url = (Inr [], log @ [url]))"
  using assms by (simp add: scrape_document_def scrape_page_def requests_get_def)

theorem no_containers_empty_list_witness:
  "event_containers empty_page = [] \<and>
   scrape_document sample_parse central_2025 empty_page = Inr [] \<and>
   scrape_page sample_parse central_2025 (\<lambda>n u. Response empty_page) [] base_url
     = (Inr [], [base_url])"
proof -
  have e: "event_containers empty_page = []" by (simp add: empty_page_def)
  show ?thesis
    using e no_containers_empty_list
      [OF e, of sample_parse central_2025 "\<lambda>n u. Response empty_page" "[]" base_url]
    by simp
qed


lemma startswith_slash:
  "startswith h (py ''/'') \<longleftrightarrow> (\<exists>r. h = of_char CHR ''/'' # r)"
  by (cases h) (auto simp: startswith_def py_def)

text \<open>
  C7: for the \<open>href\<close> of a container's anchor, the link is the site origin followed by the
  \<open>href\<close> when it starts with \<open>/\<close>, and the \<open>href\<close> itself otherwise; the event built from
  the container carries that link.
\<close>

theorem href_resolution:
  assumes "link_element item = Some a" and "href a = Some h"
  shows "(startswith h (py ''/'') \<longrightarrow> extract_link item = py ''https://murphy.tulane.edu'' @ h) \<and>
         (\<not> startswith h (py ''/'') \<longrightarrow> extract_link item = h) \<and>
         (process_container parse offs item = Appended e \<longrightarrow> link e = extract_link item)"
  using assms process_container_appended [of parse offs item e]
  by (auto simp: extract_link_def site_origin_def)

theorem href_resolution_witness:
  "link_element jazz_item = Some jazz_anchor \<and> href jazz_anchor = Some (py ''/events/foo'') \<and>
   startswith (py ''/events/foo'') (py ''/'') \<and>
   link jazz_event = py ''https://murphy.tulane.edu/events/foo'' \<and>
   link_element talk_item = Some talk_anchor \<and>
   href talk_anchor = Some (py ''https://example.org/talk'') \<and>
   \<not> startswith (py ''https://example.org/talk'') (py ''/'') \<and>
   link talk_event = py ''https://example.org/talk''"
proof -
  have j1: "link_element jazz_item = Some jazz_anchor" by (simp add: jazz_item_def)
  have j2: "href jazz_anchor = Some (py ''/events/foo'')" by (simp add: jazz_anchor_def)
  have t1: "link_element talk_item = Some talk_anchor" by (simp add: talk_item_def)
  have t2: "href talk_anchor = Some (py ''https://example.org/talk'')"
    by (simp add: talk_anchor_def)
  have s1: "startswith (py ''/events/foo'') (py ''/'')" by (simp add: startswith_def py_def)
  have s2: "\<not> startswith (py ''https://example.org/talk'') (py ''/'')"
    by (simp add: startswith_def py_def)
  show ?thesis
    using j1 j2 t1 t2 s1 s2 sample_jazz sample_talk
      href_resolution [OF j1 j2, of sample_parse central_2025 jazz_event]
      href_resolution [OF t1 t2, of sample_parse central_2025 talk_event]
    by (simp add: py_def)
qed

text \<open>
  C8: with an anchor that has the title span, the title is the span's text, stripped;
  with an anchor without the span, it is the anchor's whole text, stripped; without an
  anchor it is the placeholder \<open>No Title Found\<close>; the event built from the container
  carries that title.
\<close>

theorem title_extraction:
  "(link_element item = Some a \<and> title_span a = Some t \<longrightarrow> extract_title item = strip t) \<and>
   (link_element item = Some a \<and> title_span a = None \<longrightarrow>
      extract_title item = strip (anchor_text a)) \<and>
   (link_element item = None \<longrightarrow> extract_title item = py ''No Title Found'') \<and>
   (process_container parse offs item = Appended e \<longrightarrow> title e = extract_title item)"
  using process_container_appended [of parse offs item e]
  by (auto simp: extract_title_def no_title_def)

theorem title_extraction_witness:
  "link_element jazz_item = Some jazz_anchor \<and> title_span jazz_anchor = Some (py '' Jazz Night '') \<and>
   title jazz_event = py ''Jazz Night'' \<and> strip (py '' Jazz Night '') = py ''Jazz Night'' \<and>
   link_element talk_item = Some talk_anchor \<and> title_span talk_anchor = None \<and>
   anchor_text talk_anchor = py '' Public Talk '' \<and>
   title talk_event = py ''Public Talk'' \<and> strip (py '' Public Talk '') = py ''Public Talk'' \<and>
   link_element bare_item = None \<and> title bare_event = py ''No Title Found''"
proof -
  have j: "link_element jazz_item = Some jazz_anchor \<and>
      title_span jazz_anchor = Some (py '' Jazz Night '')"
    by (simp add: jazz_item_def jazz_anchor_def)
  have t: "link_element talk_item = Some talk_anchor \<and> title_span talk_anchor = None \<and>
      anchor_text talk_anchor = py '' Public Talk ''"
    by (simp add: talk_item_def talk_anchor_def)
  have b: "link_element bare_item = None" by (simp add: bare_item_def)
  have s: "strip (py '' Jazz Night '') = py ''Jazz Night'' \<and>
      strip (py '' Public Talk '') = py ''Public Talk''"
    by (simp add: strip_def py_def isspace_def)
  show ?thesis
    using j t b s sample_jazz sample_talk sample_bare
      title_extraction [of jazz_item jazz_anchor "py '' Jazz Night ''" sample_parse central_2025 jazz_event]
      title_extraction [of talk_item talk_anchor "[]" sample_parse central_2025 talk_event]
      title_extraction [of bare_item jazz_anchor "[]" sample_parse central_2025 bare_event]
    by simp
qed

lemma startswith_nonempty: "startswith v (py ''?page='') \<Longrightarrow> v \<noteq> []"
  by (auto simp: startswith_def py_def)

lemma collect_page_links_eq:
  "collect_page_links hs acc =
     acc \<union> {base_url @ v | v. Some v \<in> set hs \<and> startswith v (py ''?page='')}"
proof (induction hs arbitrary: acc)
  case Nil
  show ?case by simp
next
  case (Cons h hs)
  show ?case
  proof (cases h)
    case None
    then show ?thesis by (simp add: Cons.IH)
  next
    case (Some v)
    then show ?thesis
      using startswith_nonempty [of v] by (auto simp: Cons.IH)
  qed
qed

lemma finite_collect_page_links_acc:
  "finite acc \<Longrightarrow> finite (collect_page_links hs acc)"
  by (induction hs arbitrary: acc) (auto split: option.splits)

lemma finite_collect_page_links: "finite (collect_page_links hs {})"
  by (simp add: finite_collect_page_links_acc)

section \<open>Properties of the orchestrator\<close>

text \<open>
  C9: the page links collected from the pager anchors are exactly the strings
  \<open>base_url + href\<close> for the \<open>href\<close> attributes that start with \<open>?page=\<close>. They form a set:
  two lists of anchors with the same elements, in any order and multiplicity, give the
  same links, and the list the orchestrator visits holds each link once.
\<close>

theorem pagination_links:
  "collect_page_links hs {} =
     {base_url @ v | v. Some v \<in> set hs \<and> startswith v (py ''?page='')} \<and>
   (set hs' = set hs \<longrightarrow> collect_page_links hs' {} = collect_page_links hs {}) \<and>
   distinct (sorted_list_of_set (collect_page_links hs {})) \<and>
   set (sorted_list_of_set (collect_page_links hs {})) = collect_page_links hs {}"
  using finite_collect_page_links [of hs]
  by (simp add: collect_page_links_eq)

lemma sample_links_set:
  "collect_page_links (pager_items first_page) {} =
     {base_url @ py ''?page=1'', base_url @ py ''?page=2''}"
  by (auto simp: first_page_def startswith_def py_def)

lemma sample_links:
  "sorted_list_of_set (collect_page_links (pager_items first_page) {}) =
     [base_url @ py ''?page=1'', base_url @ py ''?page=2'']"
proof -
  have "collect_page_links (pager_items first_page) {} =
      set [base_url @ py ''?page=1'', base_url @ py ''?page=2'']"
    by (simp add: sample_links_set)
  then have "sorted_list_of_set (collect_page_links (pager_items first_page) {}) =
      sort (remdups [base_url @ py ''?page=1'', base_url @ py ''?page=2''])"
    by (simp only: sorted_list_of_set_sort_remdups)
  then show ?thesis by (simp add: py_def base_url_def)
qed


theorem pagination_links_witness:
  "set (rev (pager_items first_page)) = set (pager_items first_page) \<and>
   collect_page_links (pager_items first_page) {} =
     {base_url @ py ''?page=1'', base_url @ py ''?page=2''} \<and>
   collect_page_links (rev (pager_items first_page)) {} =
     {base_url @ py ''?page=1'', base_url @ py ''?page=2''} \<and>
   sorted_list_of_set (collect_page_links (pager_items first_page) {}) =
     [base_url @ py ''?page=1'', base_url @ py ''?page=2'']"
  using pagination_links [of "pager_items first_page" "rev (pager_items first_page)"]
    sample_links_set sample_links
  by simp

lemma sample_first: "scrape_document sample_parse central_2025 first_page = Inr [jazz_event]"
  by (simp add: scrape_document_def first_page_def sample_jazz)

lemma sample_later: "scrape_document sample_parse central_2025 later_page = Inr [talk_event]"
  by (simp add: scrape_document_def later_page_def sample_talk)

lemma page_urls_differ:
  "py ''?page=1'' \<noteq> []" "py ''?page=2'' \<noteq> []" "py ''?page=2'' \<noteq> py ''?page=1''"
  by (simp_all add: py_def)

lemmas run_defs = main_def scrape_page_def requests_get_def

lemma sample_run_page_1_down:
  "main U sample_parse central_2025 page_1_down =
     \<lparr>requested = [base_url, base_url, base_url @ py ''?page=1'', base_url @ py ''?page=2''],
      written = [generate_ics_file U jazz_event, generate_ics_file U talk_event],
      uncaught = None\<rparr>"
  by (simp add: run_defs page_1_down_def sample_links sample_first sample_later page_urls_differ)

lemma sample_run_base_down_at_second:
  "main U sample_parse central_2025 base_down_at_second =
     \<lparr>requested = [base_url, base_url, base_url @ py ''?page=1'', base_url @ py ''?page=2''],
      written = [generate_ics_file U talk_event, generate_ics_file U talk_event],
      uncaught = None\<rparr>"
  by (simp add: run_defs base_down_at_second_def sample_links sample_later page_urls_differ)

lemma scrape_page_log: "snd (scrape_page parse offs net log url) = log @ [url]"
  by (simp add: scrape_page_def requests_get_def split: response.splits)

lemma scrape_rest_log:
  "\<exists>ext. snd (scrape_rest parse offs net urls all_events log) = log @ ext"
proof (induction urls arbitrary: all_events log)
  case Nil
  show ?case by simp
next
  case (Cons u urls)
  obtain r log' where p: "scrape_page parse offs net log u = (r, log')"
    by (cases "scrape_page parse offs net log u")
  with scrape_page_log [of parse offs net log u] have l: "log' = log @ [u]" by simp
  show ?case
  proof (cases r)
    case (Inl x)
    with p l show ?thesis by simp
  next
    case (Inr evs)
    from Cons.IH [of "all_events @ evs" log'] obtain ext
      where "snd (scrape_rest parse offs net urls (all_events @ evs) log') = log' @ ext" ..
    with p l Inr show ?thesis by simp
  qed
qed

lemma scrape_rest_keeps:
  "scrape_rest parse offs net urls all_events log = (Inr evs, log') \<Longrightarrow>
   \<exists>more. evs = all_events @ more"
proof (induction urls arbitrary: all_events log)
  case Nil
  then show ?case by simp
next
  case (Cons u urls)
  obtain r l where p: "scrape_page parse offs net log u = (r, l)"
    by (cases "scrape_page parse offs net log u")
  show ?case
  proof (cases r)
    case (Inl x)
    with p Cons.prems show ?thesis by simp
  next
    case (Inr es)
    with p Cons.prems have "scrape_rest parse offs net urls (all_events @ es) l = (Inr evs, log')"
      by simp
    from Cons.IH [OF this] show ?thesis by auto
  qed
qed

text \<open>
  C5, as stated, makes every fetch failure on the base page fatal. The base URL is
  requested twice, and only the first request is the orchestrator's own: on a network
  that delivers the base page once and then refuses it, the second request fails inside
  \<open>scrape_page\<close>, and the run goes on and writes the files of the sub-pages.
\<close>

theorem base_refetch_failure_counterexample:
  "base_fetch_failed base_down_at_second
     (main no_unicode_alnum sample_parse central_2025 base_down_at_second) \<and>
   written (main no_unicode_alnum sample_parse central_2025 base_down_at_second) =
     [generate_ics_file no_unicode_alnum talk_event,
      generate_ics_file no_unicode_alnum talk_event] \<and>
   uncaught (main no_unicode_alnum sample_parse central_2025 base_down_at_second) = None"
  by (simp add: base_fetch_failed_def sample_run_base_down_at_second base_down_at_second_def)

text \<open>
  C5, amended: when the orchestrator's own fetch of the base page, the first request of
  the run, fails, the run ends there: one request, no file written. When a fetch fails
  inside \<open>scrape_page\<close>, for a sub-page or for the second request of the base page, it
  returns the empty list without raising, the loop over the pages goes on with the next
  URL and the events collected so far, which stay at the front of the final list, and
  the run writes one file for every event of that list.
\<close>

theorem fetch_failures:
  "(net 0 base_url = RequestException \<longrightarrow>
      main U parse offs net = \<lparr>requested = [base_url], written = [], uncaught = None\<rparr>) \<and>
   (net (length log) page_url = RequestException \<longrightarrow>
      scrape_page parse offs net log page_url = (Inr [], log @ [page_url]) \<and>
      scrape_rest parse offs net (page_url # urls) all_events log =
        scrape_rest parse offs net urls all_events (log @ [page_url])) \<and>
   (scrape_rest parse offs net urls all_events log = (Inr evs, log') \<longrightarrow>
      take (length all_events) evs = all_events) \<and>
   (net 0 base_url = Response soup \<and>
    scrape_page parse offs net [base_url] base_url = (Inr first_events, log1) \<and>
    scrape_rest parse offs net
      (sorted_list_of_set (collect_page_links (pager_items soup) {})) first_events log1 =
        (Inr evs, log2) \<longrightarrow>
      main U parse offs net =
        \<lparr>requested = log2, written = map (generate_ics_file U) evs, uncaught = None\<rparr>)"
proof -
  have a: "main U parse offs net = \<lparr>requested = [base_url], written = [], uncaught = None\<rparr>"
    if "net 0 base_url = RequestException"
    using that by (simp add: main_def requests_get_def)
  have b: "scrape_page parse offs net log page_url = (Inr [], log @ [page_url])"
    if "net (length log) page_url = RequestException"
    using that by (simp add: scrape_page_def requests_get_def)
  have c: "take (length all_events) evs = all_events"
    if "scrape_rest parse offs net urls all_events log = (Inr evs, log')"
    using scrape_rest_keeps [OF that] by auto
  have d: "main U parse offs net =
        \<lparr>requested = log2, written = map (generate_ics_file U) evs, uncaught = None\<rparr>"
    if "net 0 base_url = Response soup"
      and "scrape_page parse offs net [base_url] base_url = (Inr first_events, log1)"
      and "scrape_rest parse offs net
        (sorted_list_of_set (collect_page_links (pager_items soup) {})) first_events log1 =
          (Inr evs, log2)"
    using that by (simp add: main_def requests_get_def)
  from a b c d show ?thesis by simp
qed


theorem fetch_failures_witness:
  "offline 0 base_url = RequestException \<and>
   main no_unicode_alnum sample_parse central_2025 offline =
     \<lparr>requested = [base_url], written = [], uncaught = None\<rparr> \<and>
   page_1_down (length [base_url, base_url]) (base_url @ py ''?page=1'') = RequestException \<and>
   scrape_page sample_parse central_2025 page_1_down [base_url, base_url]
       (base_url @ py ''?page=1'') =
     (Inr [], [base_url, base_url, base_url @ py ''?page=1'']) \<and>
   scrape_rest sample_parse central_2025 page_1_down
       [base_url @ py ''?page=1'', base_url @ py ''?page=2''] [jazz_event] [base_url, base_url] =
     (Inr [jazz_event, talk_event],
      [base_url, base_url, base_url @ py ''?page=1'', base_url @ py ''?page=2'']) \<and>
   main no_unicode_alnum sample_parse central_2025 page_1_down =
     \<lparr>requested = [base_url, base_url, base_url @ py ''?page=1'', base_url @ py ''?page=2''],
      written = [generate_ics_file no_unicode_alnum jazz_event,
                 generate_ics_file no_unicode_alnum talk_event],
      uncaught = None\<rparr> \<and>
   map filename (written (main no_unicode_alnum sample_parse central_2025 page_1_down)) =
     [py ''Jazz-Night.ics'', py ''Public-Talk.ics'']"
proof -
  have o: "offline 0 base_url = RequestException" by (simp add: offline_def)
  have d: "page_1_down (length [base_url, base_url]) (base_url @ py ''?page=1'') =
      RequestException"
    by (simp add: page_1_down_def page_urls_differ)
  have r: "scrape_rest sample_parse central_2025 page_1_down
       [base_url @ py ''?page=2''] [jazz_event] ([base_url, base_url] @ [base_url @ py ''?page=1'']) =
     (Inr [jazz_event, talk_event],
      [base_url, base_url, base_url @ py ''?page=1'', base_url @ py ''?page=2''])"
    by (simp add: scrape_page_def requests_get_def page_1_down_def sample_later page_urls_differ)
  have f: "map filename [generate_ics_file no_unicode_alnum jazz_event,
                 generate_ics_file no_unicode_alnum talk_event] =
     [py ''Jazz-Night.ics'', py ''Public-Talk.ics'']"
    by (simp add: generate_ics_file_def jazz_event_def talk_event_def filename_defs)
  show ?thesis
    using o d r f
      fetch_failures [of offline no_unicode_alnum sample_parse central_2025]
      fetch_failures [of page_1_down no_unicode_alnum sample_parse central_2025
        "[base_url, base_url]" "base_url @ py ''?page=1''" "[base_url @ py ''?page=2'']"
        "[jazz_event]"]
      sample_run_page_1_down [of no_unicode_alnum]
    by simp
qed

text \<open>
  C10, as stated, has the base URL fetched twice in every run. On a network that answers
  nothing the run ends after the orchestrator's own request.
\<close>

theorem base_fetched_once_counterexample:
  "\<not> base_fetched_twice (main no_unicode_alnum sample_parse central_2025 offline)"
  by (simp add: base_fetched_twice_def main_def requests_get_def offline_def)

text \<open>
  C10, amended: in every run whose first fetch of the base URL succeeds, the base URL
  is fetched a second time, inside \<open>scrape_page\<close>. If that second fetch fails,
  \<open>scrape_page\<close> returns the empty list and the run goes on through the sub-pages and the
  emission, starting from no events: the events of the base page are absent from the
  output.
\<close>

theorem second_base_fetch:
  assumes "net 0 base_url = Response soup"
  shows "base_fetched_twice (main U parse offs net) \<and>
         (net 1 base_url = RequestException \<longrightarrow>
            scrape_page parse offs net [base_url] base_url = (Inr [], [base_url, base_url]) \<and>
            main U parse offs net =
              (case scrape_rest parse offs net
                      (sorted_list_of_set (collect_page_links (pager_items soup) {})) []
                      [base_url, base_url] of
                 (Inl x, log2) \<Rightarrow> \<lparr>requested = log2, written = [], uncaught = Some x\<rparr>
               | (Inr all_events, log2) \<Rightarrow>
                   \<lparr>requested = log2, written = map (generate_ics_file U) all_events,
                    uncaught = None\<rparr>))"
proof -
  obtain r log1 where p: "scrape_page parse offs net [base_url] base_url = (r, log1)"
    by (cases "scrape_page parse offs net [base_url] base_url")
  with scrape_page_log [of parse offs net "[base_url]" base_url]
  have l: "log1 = [base_url, base_url]" by simp
  have twice: "base_fetched_twice (main U parse offs net)"
  proof (cases r)
    case (Inl x)
    with assms p l show ?thesis
      by (simp add: base_fetched_twice_def main_def requests_get_def)
  next
    case (Inr first_events)
    let ?rest = "scrape_rest parse offs net
        (sorted_list_of_set (collect_page_links (pager_items soup) {})) first_events log1"
    from scrape_rest_log obtain ext where e: "snd ?rest = log1 @ ext" by blast
    obtain q log2 where s: "?rest = (q, log2)" by (cases ?rest)
    with e l have "take 2 log2 = [base_url, base_url]" by simp
    with assms p Inr s show ?thesis
      by (cases q) (simp_all add: base_fetched_twice_def main_def requests_get_def)
  qed
  have fails: "scrape_page parse offs net [base_url] base_url = (Inr [], [base_url, base_url])"
    if "net 1 base_url = RequestException"
    using that by (simp add: scrape_page_def requests_get_def)
  from twice fails assms show ?thesis
    by (simp add: main_def requests_get_def)
qed

theorem second_base_fetch_witness:
  "base_down_at_second 0 base_url = Response first_page \<and>
   base_down_at_second 1 base_url = RequestException \<and>
   base_fetched_twice (main no_unicode_alnum sample_parse central_2025 base_down_at_second) \<and>
   scrape_page sample_parse central_2025 base_down_at_second [base_url] base_url =
     (Inr [], [base_url, base_url]) \<and>
   main no_unicode_alnum sample_parse central_2025 base_down_at_second =
     \<lparr>requested = [base_url, base_url, base_url @ py ''?page=1'', base_url @ py ''?page=2''],
      written = [generate_ics_file no_unicode_alnum talk_event,
                 generate_ics_file no_unicode_alnum talk_event],
      uncaught = None\<rparr>"
proof -
  have a: "base_down_at_second 0 base_url = Response first_page"
    by (simp add: base_down_at_second_def)
  have b: "base_down_at_second 1 base_url = RequestException"
    by (simp add: base_down_at_second_def)
  note t = second_base_fetch [where net = base_down_at_second and soup = first_page
      and U = no_unicode_alnum and parse = sample_parse and offs = central_2025, OF a]
  from t have t1: "base_fetched_twice
      (main no_unicode_alnum sample_parse central_2025 base_down_at_second)"
    by (rule conjunct1)
  from t b have t2: "scrape_page sample_parse central_2025 base_down_at_second [base_url]
      base_url = (Inr [], [base_url, base_url])"
    by blast
  show ?thesis
    by (intro conjI a b t1 t2 sample_run_base_down_at_second)
qed

end
